theory Spec2Isabelle
  imports Complex_Main "HOL-Library.Word" "HOL-Library.AList"
begin

section \<open>The RPC client of \<^verbatim>\<open>chia/rpc/rpc_client.py\<close>\<close>

text \<open>
  The module is one class, \<^verbatim>\<open>RpcClient\<close>: the dispatcher \<^verbatim>\<open>fetch\<close> (a retry loop around
  an HTTP POST), five endpoint methods built on it, and \<^verbatim>\<open>close\<close>/\<^verbatim>\<open>await_closed\<close>.
  Exceptions are values of \<open>error\<close>; every effect (requests sent, files appended to,
  seconds slept) is a field of an explicit \<open>world\<close> that each function takes and returns.
  The HTTP server and the file system are not part of the module: they are parameters.
\<close>

subsection \<open>Python values\<close>

text \<open>
  What \<^verbatim>\<open>json.loads\<close> can produce, plus \<^verbatim>\<open>bytes\<close> (stored into a decoded record by
  \<^verbatim>\<open>get_connections\<close>). A \<^verbatim>\<open>dict\<close> keeps insertion order and has string keys only,
  so it is an association list read with \<open>map_of\<close>. Python's \<^verbatim>\<open>json\<close> reads
  \<^verbatim>\<open>NaN\<close> and \<^verbatim>\<open>Infinity\<close>, so a float is a rational or one of those.
\<close>

datatype pyfloat = Finite rat | PosInf | NegInf | NaN

datatype pyval =
    PNone
  | PBool bool
  | PInt int
  | PFloat pyfloat
  | PStr string
  | PBytes "8 word list"
  | PList "pyval list"
  | PDict "(string \<times> pyval) list"

text \<open>The exceptions that the module raises or lets through.\<close>

datatype error =
    FileNotFoundError string
  | OSError string
  | ClientError
  | ClientResponseError int
  | ContentTypeError
  | JSONDecodeError
  | KeyError string
  | TypeError
  | ValueError pyval
  | Exception_took nat pyval
  | Exception_uhhh

text \<open>\<^verbatim>\<open>bool(x)\<close>, as \<^verbatim>\<open>not x\<close> uses it.\<close>

fun truthy :: "pyval \<Rightarrow> bool" where
  "truthy PNone = False"
| "truthy (PBool b) = b"
| "truthy (PInt i) = (i \<noteq> 0)"
| "truthy (PFloat f) = (f \<noteq> Finite 0)"
| "truthy (PStr s) = (s \<noteq> [])"
| "truthy (PBytes bs) = (bs \<noteq> [])"
| "truthy (PList xs) = (xs \<noteq> [])"
| "truthy (PDict kvs) = (kvs \<noteq> [])"

text \<open>
  \<^verbatim>\<open>obj[key]\<close> with a string key: a \<^verbatim>\<open>dict\<close> returns the value or raises
  \<^verbatim>\<open>KeyError\<close>; every other value raises \<^verbatim>\<open>TypeError\<close> (\<^verbatim>\<open>None\<close> and numbers are not
  subscriptable, lists and strings want integer indices).
\<close>

fun subscript :: "pyval \<Rightarrow> string \<Rightarrow> error + pyval" where
  "subscript (PDict kvs) k = (case map_of kvs k of None \<Rightarrow> Inl (KeyError k) | Some v \<Rightarrow> Inr v)"
| "subscript v k = Inl TypeError"

text \<open>\<^verbatim>\<open>str(n)\<close> for a non-negative integer.\<close>

definition digit_char :: "nat \<Rightarrow> char" where
  "digit_char d = ''0123456789'' ! (d mod 10)"

function str_nat :: "nat \<Rightarrow> string" where
  "str_nat n = (if n < 10 then [digit_char n] else str_nat (n div 10) @ [digit_char (n mod 10)])"
  by pat_completeness auto
termination
  by (relation "measure id") auto

declare str_nat.simps [simp del]

subsection \<open>The world outside the module\<close>

text \<open>
  \<open>fs w p\<close> is what \<^verbatim>\<open>open(p, "a")\<close> meets: \<open>Inl e\<close> when the open raises \<open>e\<close>
  (a missing directory, no permission), \<open>Inr text\<close> when it succeeds on a file whose
  content is \<open>text\<close> (empty for a file that the open creates). \<open>pid\<close> is what
  \<^verbatim>\<open>os.getpid()\<close> returns, \<open>posts\<close> the requests handed to \<^verbatim>\<open>session.post\<close> so far
  (URL and JSON body), \<open>slept\<close> the seconds spent in \<^verbatim>\<open>asyncio.sleep\<close>.
\<close>

record world =
  fs :: "string \<Rightarrow> error + string"
  pid :: nat
  posts :: "(string \<times> pyval) list"
  slept :: nat

text \<open>
  What the module reads of an \<^verbatim>\<open>aiohttp.ClientResponse\<close>: the status, and the outcome
  of \<^verbatim>\<open>await response.json()\<close> (the decoded body, or the exception of a body that is
  not JSON).
\<close>

record ClientResponse =
  status :: int
  json :: "error + pyval"

text \<open>
  The server and the network: the outcome of the \<open>n\<close>-th POST of the session, given
  its URL and body, is an exception of the HTTP client or a response.
\<close>

type_synonym transport = "nat \<Rightarrow> string \<Rightarrow> pyval \<Rightarrow> error + ClientResponse"

text \<open>
  \<^verbatim>\<open>open(p, "a")\<close>. The empty path names no file: the open raises
  \<^verbatim>\<open>FileNotFoundError\<close> whatever the file system holds.
\<close>

definition open_a :: "world \<Rightarrow> string \<Rightarrow> error + string" where
  "open_a w p = (if p = [] then Inl (FileNotFoundError p) else fs w p)"

text \<open>
  \<^verbatim>\<open>with open(p, "a") as f: print(line, file=f)\<close>: the line and a newline go to the
  end of the file.
\<close>

definition append_line :: "world \<Rightarrow> string \<Rightarrow> string \<Rightarrow> error + world" where
  "append_line w p line =
     (case open_a w p of
        Inl e \<Rightarrow> Inl e
      | Inr text \<Rightarrow> Inr (w\<lparr>fs := (fs w)(p := Inr (text @ line @ [CHR 0x0A]))\<rparr>))"

text \<open>
  \<^verbatim>\<open>response.raise_for_status()\<close> of aiohttp: raises \<^verbatim>\<open>ClientResponseError\<close>, which
  carries the status, when the status is 400 or higher, and does nothing below 400.
\<close>

definition raise_for_status :: "ClientResponse \<Rightarrow> error + unit" where
  "raise_for_status response =
     (if 400 \<le> status response then Inl (ClientResponseError (status response)) else Inr ())"

subsection \<open>The client handle\<close>

text \<open>
  The coroutine \<^verbatim>\<open>session.close()\<close> belongs to aiohttp. Of each step that the event loop
  runs of it, the module can see one thing only: whether the step marks the session
  closed or leaves it as it is.
\<close>

datatype step = Closes | Waits

text \<open>
  An \<^verbatim>\<open>asyncio.Task\<close>: \<open>pending\<close> holds the steps of the wrapped coroutine that the
  event loop has still to run. The task is done when none is left.
\<close>

record Task =
  pending :: "step list"

record ClientSession =
  session_closed :: bool

datatype SSLContext = SSLContext string string string string

record RpcClient =
  url :: string
  session :: ClientSession
  closing_task :: "Task option"
  ssl_context :: "SSLContext option"
  hostname :: string
  port :: "16 word"

text \<open>
  \<^verbatim>\<open>create\<close>. The TLS context comes from \<^verbatim>\<open>ssl_context_for_client\<close> on paths that
  \<^verbatim>\<open>private_ssl_ca_paths\<close> and the configuration give; neither function is in this
  module, so the context is a parameter.
\<close>

definition create :: "string \<Rightarrow> 16 word \<Rightarrow> SSLContext option \<Rightarrow> RpcClient" where
  "create self_hostname p ctx =
     \<lparr>url = ''https://'' @ self_hostname @ '':'' @ str_nat (unat p) @ ''/'',
      session = \<lparr>session_closed = False\<rparr>,
      closing_task = None,
      ssl_context = ctx,
      hostname = self_hostname,
      port = p\<rparr>"

subsection \<open>\<^verbatim>\<open>fetch\<close>\<close>

text \<open>\<^verbatim>\<open>retries = range(5)\<close>; \<^verbatim>\<open>retries[-1]\<close> is \<open>last retries\<close>.\<close>

definition retries :: "nat list" where
  "retries = [0..<5]"

text \<open>How one pass through the body of the \<^verbatim>\<open>for\<close> loop ends.\<close>

datatype outcome = Continue | Raise error | Return pyval | Falls_through

definition fetching_line :: "world \<Rightarrow> string \<Rightarrow> string" where
  "fetching_line w u = str_nat (pid w) @ '' ====     fetch()ing '' @ u"

definition retry_line :: "world \<Rightarrow> string \<Rightarrow> string" where
  "retry_line w u = str_nat (pid w) @ '' ==== 404 fetch()ing '' @ u"

text \<open>
  Lines 49 to 64, one attempt: the POST, the line written on the first attempt when an
  id is given, the 404 branch (a line written to the file named by the id, a second of
  sleep, \<^verbatim>\<open>continue\<close>), then the status check, the decoding and the two checks of the
  envelope. The \<^verbatim>\<open>async with\<close> block always leaves by \<^verbatim>\<open>continue\<close>, \<^verbatim>\<open>raise\<close> or
  \<^verbatim>\<open>return\<close>, so \<open>Falls_through\<close> is never its outcome.
\<close>

definition fetch_attempt ::
  "transport \<Rightarrow> string \<Rightarrow> pyval \<Rightarrow> string \<Rightarrow> nat \<Rightarrow> world \<Rightarrow> outcome \<times> world" where
  "fetch_attempt post u request_json ident retry w =
     (let w1 = w\<lparr>posts := posts w @ [(u, request_json)]\<rparr> in
      case post (length (posts w)) u request_json of
        Inl e \<Rightarrow> (Raise e, w1)
      | Inr response \<Rightarrow>
          (case (if retry = 0 \<and> ident \<noteq> [] then append_line w1 ident (fetching_line w1 u)
                 else Inr w1) of
             Inl e \<Rightarrow> (Raise e, w1)
           | Inr w2 \<Rightarrow>
               if status response = 404 \<and> retry \<noteq> last retries then
                 (case append_line w2 ident (retry_line w2 u) of
                    Inl e \<Rightarrow> (Raise e, w2)
                  | Inr w3 \<Rightarrow> (Continue, w3\<lparr>slept := slept w3 + 1\<rparr>))
               else
                 (case raise_for_status response of
                    Inl e \<Rightarrow> (Raise e, w2)
                  | Inr _ \<Rightarrow>
                      (case json response of
                         Inl e \<Rightarrow> (Raise e, w2)
                       | Inr res_json \<Rightarrow>
                           (case subscript res_json ''success'' of
                              Inl e \<Rightarrow> (Raise e, w2)
                            | Inr success \<Rightarrow>
                                if \<not> truthy success then (Raise (ValueError res_json), w2)
                                else if retry \<noteq> 0 then (Raise (Exception_took retry res_json), w2)
                                else (Return res_json, w2))))))"

text \<open>
  The \<^verbatim>\<open>for\<close> loop over the attempts still to make. Line 66 is inside the loop, after
  the \<^verbatim>\<open>async with\<close> block; a loop that runs out of attempts leaves the function
  without a \<^verbatim>\<open>return\<close>, which yields \<^verbatim>\<open>None\<close>.
\<close>

fun fetch_loop ::
  "transport \<Rightarrow> string \<Rightarrow> pyval \<Rightarrow> string \<Rightarrow> nat list \<Rightarrow> world \<Rightarrow> (error + pyval) \<times> world" where
  "fetch_loop post u request_json ident [] w = (Inr PNone, w)"
| "fetch_loop post u request_json ident (retry # rest) w =
     (case fetch_attempt post u request_json ident retry w of
        (Continue, w') \<Rightarrow> fetch_loop post u request_json ident rest w'
      | (Raise e, w') \<Rightarrow> (Inl e, w')
      | (Return v, w') \<Rightarrow> (Inr v, w')
      | (Falls_through, w') \<Rightarrow> (Inl Exception_uhhh, w'))"

definition fetch ::
  "transport \<Rightarrow> RpcClient \<Rightarrow> string \<Rightarrow> pyval \<Rightarrow> string \<Rightarrow> world \<Rightarrow> (error + pyval) \<times> world" where
  "fetch post self path request_json ident w =
     fetch_loop post (url self @ path @ ''?'' @ ident) request_json ident retries w"

text \<open>What an outcome of one attempt makes of the whole call, when it ends the loop.\<close>

definition ended :: "outcome \<Rightarrow> (error + pyval) option" where
  "ended out =
     (case out of
        Continue \<Rightarrow> None
      | Raise e \<Rightarrow> Some (Inl e)
      | Return v \<Rightarrow> Some (Inr v)
      | Falls_through \<Rightarrow> Some (Inl Exception_uhhh))"

subsection \<open>Hexadecimal\<close>

text \<open>\<^verbatim>\<open>bytes.hex()\<close>: two lower-case digits for each byte.\<close>

definition hexdigits :: string where
  "hexdigits = ''0123456789abcdef''"

definition hex_byte :: "8 word \<Rightarrow> string" where
  "hex_byte b = [hexdigits ! (unat b div 16), hexdigits ! (unat b mod 16)]"

definition bytes_hex :: "8 word list \<Rightarrow> string" where
  "bytes_hex bs = concat (map hex_byte bs)"

fun index_of :: "'a \<Rightarrow> 'a list \<Rightarrow> nat option" where
  "index_of c [] = None"
| "index_of c (x # xs) = (if c = x then Some 0 else map_option Suc (index_of c xs))"

text \<open>
  Modelled from the spec: \<^verbatim>\<open>hexstr_to_bytes\<close> of \<^verbatim>\<open>chia.util.byte_types\<close> is not in
  this module. The spec has it decode a \<^verbatim>\<open>node_id\<close> from the hex string on the wire
  into raw bytes, such that encoding the bytes back to hex gives the string again: it
  reads the digits that \<^verbatim>\<open>hex\<close> writes, two for each byte, and raises on anything else.
\<close>

fun fromhex :: "string \<Rightarrow> error + 8 word list" where
  "fromhex [] = Inr []"
| "fromhex [c] = Inl (ValueError (PStr [c]))"
| "fromhex (a # b # cs) =
     (case (index_of a hexdigits, index_of b hexdigits) of
        (Some h, Some l) \<Rightarrow>
          (case fromhex cs of
             Inl e \<Rightarrow> Inl e
           | Inr bs \<Rightarrow> Inr (word_of_nat (16 * h + l) # bs))
      | _ \<Rightarrow> Inl (ValueError (PStr (a # b # cs))))"

fun hexstr_to_bytes :: "pyval \<Rightarrow> error + 8 word list" where
  "hexstr_to_bytes (PStr s) = fromhex s"
| "hexstr_to_bytes v = Inl TypeError"

subsection \<open>The endpoint methods\<close>

text \<open>
  \<^verbatim>\<open>NodeType\<close> is an enumeration of \<^verbatim>\<open>chia.server\<close>; the module reads its
  \<^verbatim>\<open>value\<close> only.
\<close>

datatype NodeType = NodeType (node_value: int)

text \<open>\<^verbatim>\<open>obj[key] = v\<close>: a \<^verbatim>\<open>dict\<close> keeps the position of a key it has already.\<close>

fun setitem :: "pyval \<Rightarrow> string \<Rightarrow> pyval \<Rightarrow> error + pyval" where
  "setitem (PDict kvs) k v = Inr (PDict (AList.update k v kvs))"
| "setitem obj k v = Inl TypeError"

text \<open>
  What a \<^verbatim>\<open>for\<close> loop runs over: the elements of a list, the keys of a
  \<^verbatim>\<open>dict\<close>, the characters of a string, the bytes of a \<^verbatim>\<open>bytes\<close>; nothing else
  is iterable.
\<close>

fun iterate :: "pyval \<Rightarrow> error + pyval list" where
  "iterate (PList xs) = Inr xs"
| "iterate (PDict kvs) = Inr (map (\<lambda>kv. PStr (fst kv)) kvs)"
| "iterate (PStr s) = Inr (map (\<lambda>c. PStr [c]) s)"
| "iterate (PBytes bs) = Inr (map (\<lambda>b. PInt (uint b)) bs)"
| "iterate v = Inl TypeError"

text \<open>Line 74, the body of the loop of \<^verbatim>\<open>get_connections\<close>.\<close>

definition decode_node_id :: "pyval \<Rightarrow> error + pyval" where
  "decode_node_id connection =
     (case subscript connection ''node_id'' of
        Inl e \<Rightarrow> Inl e
      | Inr h \<Rightarrow>
          (case hexstr_to_bytes h of
             Inl e \<Rightarrow> Inl e
           | Inr bs \<Rightarrow> setitem connection ''node_id'' (PBytes bs)))"

text \<open>
  The loop of lines 73 and 74, which stops at the first exception. The records of a
  decoded JSON list are distinct objects, so updating one in place changes no other.
\<close>

fun for_connections :: "pyval list \<Rightarrow> error + pyval list" where
  "for_connections [] = Inr []"
| "for_connections (connection # rest) =
     (case decode_node_id connection of
        Inl e \<Rightarrow> Inl e
      | Inr connection' \<Rightarrow>
          (case for_connections rest of
             Inl e \<Rightarrow> Inl e
           | Inr rest' \<Rightarrow> Inr (connection' # rest')))"

definition get_connections_request :: "NodeType option \<Rightarrow> pyval" where
  "get_connections_request node_type =
     (case node_type of
        None \<Rightarrow> PDict []
      | Some t \<Rightarrow> PDict [(''node_type'', PInt (node_value t))])"

text \<open>
  \<^verbatim>\<open>get_connections\<close> returns \<^verbatim>\<open>response["connections"]\<close>, whose records the loop
  has updated when it is a list. A value that is iterable but no list (a
  \<^verbatim>\<open>dict\<close>, a string) passes the loop only when it is empty, and is returned as it is.
\<close>

definition get_connections ::
  "transport \<Rightarrow> RpcClient \<Rightarrow> NodeType option \<Rightarrow> world \<Rightarrow> (error + pyval) \<times> world" where
  "get_connections post self node_type w =
     (case fetch post self ''get_connections'' (get_connections_request node_type) [] w of
        (Inl e, w') \<Rightarrow> (Inl e, w')
      | (Inr response, w') \<Rightarrow>
          (case subscript response ''connections'' of
             Inl e \<Rightarrow> (Inl e, w')
           | Inr connections \<Rightarrow>
               (case iterate connections of
                  Inl e \<Rightarrow> (Inl e, w')
                | Inr items \<Rightarrow>
                    (case for_connections items of
                       Inl e \<Rightarrow> (Inl e, w')
                     | Inr items' \<Rightarrow>
                         (Inr (case connections of PList _ \<Rightarrow> PList items' | _ \<Rightarrow> connections),
                          w')))))"

definition open_connection ::
  "transport \<Rightarrow> RpcClient \<Rightarrow> string \<Rightarrow> int \<Rightarrow> world \<Rightarrow> (error + pyval) \<times> world" where
  "open_connection post self host portnum w =
     fetch post self ''open_connection''
       (PDict [(''host'', PStr host), (''port'', PInt portnum)]) [] w"

definition close_connection ::
  "transport \<Rightarrow> RpcClient \<Rightarrow> 8 word list \<Rightarrow> world \<Rightarrow> (error + pyval) \<times> world" where
  "close_connection post self node_id w =
     fetch post self ''close_connection'' (PDict [(''node_id'', PStr (bytes_hex node_id))]) [] w"

definition stop_node :: "transport \<Rightarrow> RpcClient \<Rightarrow> world \<Rightarrow> (error + pyval) \<times> world" where
  "stop_node post self w = fetch post self ''stop_node'' (PDict []) [] w"

definition healthz :: "transport \<Rightarrow> RpcClient \<Rightarrow> world \<Rightarrow> (error + pyval) \<times> world" where
  "healthz post self w = fetch post self ''healthz'' (PDict []) [] w"

subsection \<open>\<^verbatim>\<open>close\<close> and \<^verbatim>\<open>await_closed\<close>\<close>

text \<open>
  One turn of the event loop runs the next step of the task that it holds, if the task has
  one. The only task of a client is the one that wraps \<^verbatim>\<open>session.close()\<close>.
\<close>

definition loop_turn :: "RpcClient \<Rightarrow> RpcClient" where
  "loop_turn self =
     (case closing_task self of
        None \<Rightarrow> self
      | Some t \<Rightarrow>
          (case pending t of
             [] \<Rightarrow> self
           | s # rest \<Rightarrow>
               self\<lparr>closing_task := Some (t\<lparr>pending := rest\<rparr>),
                    session := (case s of
                                  Closes \<Rightarrow> (session self)\<lparr>session_closed := True\<rparr>
                                | Waits \<Rightarrow> session self)\<rparr>))"

fun run_loop :: "nat \<Rightarrow> RpcClient \<Rightarrow> RpcClient" where
  "run_loop 0 self = self"
| "run_loop (Suc n) self = run_loop n (loop_turn self)"

text \<open>
  \<^verbatim>\<open>close\<close>: \<^verbatim>\<open>asyncio.create_task\<close> hands the coroutine to the loop and returns at
  once; nothing of it has run yet. A coroutine has at least one step, the one in which it
  returns: \<open>s\<close> is the first step of \<^verbatim>\<open>session.close()\<close> and \<open>ss\<close> are the later ones.
\<close>

definition close :: "step \<Rightarrow> step list \<Rightarrow> RpcClient \<Rightarrow> RpcClient" where
  "close s ss self = self\<lparr>closing_task := Some \<lparr>pending = s # ss\<rparr>\<rparr>"

text \<open>
  \<^verbatim>\<open>await task\<close>: a task that is done is returned from at once; otherwise the caller is
  suspended, the loop takes a turn, and the caller looks again. The result is the number
  of turns spent suspended, and the client then.
\<close>

function await_task :: "RpcClient \<Rightarrow> nat \<times> RpcClient" where
  "await_task self =
     (case closing_task self of
        None \<Rightarrow> (0, self)
      | Some t \<Rightarrow>
          if pending t = [] then (0, self)
          else (case await_task (loop_turn self) of (turns, self') \<Rightarrow> (Suc turns, self')))"
  by pat_completeness auto
termination
  by (relation "measure (\<lambda>self. case closing_task self of None \<Rightarrow> 0 | Some t \<Rightarrow> length (pending t))")
     (auto simp: loop_turn_def split: list.splits)

declare await_task.simps [simp del]

text \<open>Lines 92 to 94.\<close>

definition await_closed :: "RpcClient \<Rightarrow> nat \<times> RpcClient" where
  "await_closed self =
     (case closing_task self of
        None \<Rightarrow> (0, self)
      | Some t \<Rightarrow> await_task self)"

subsection \<open>Servers, file systems and clients to run the module on\<close>

text \<open>A server that answers the \<open>n\<close>-th request with the \<open>n\<close>-th entry of a script.\<close>

definition reply_with :: "(error + ClientResponse) list \<Rightarrow> transport" where
  "reply_with script n u body = (if n < length script then script ! n else Inl ClientError)"

definition no_files :: "string \<Rightarrow> error + string" where
  "no_files p = Inl (FileNotFoundError p)"

definition log_only :: "string \<Rightarrow> error + string" where
  "log_only p = (if p = ''fetch.log'' then Inr [] else Inl (FileNotFoundError p))"

definition world0 :: world where
  "world0 = \<lparr>fs = no_files, pid = 4242, posts = [], slept = 0\<rparr>"

definition world1 :: world where
  "world1 = \<lparr>fs = log_only, pid = 4242, posts = [], slept = 0\<rparr>"

definition client0 :: RpcClient where
  "client0 = create ''localhost'' 8555 None"

definition respond :: "int \<Rightarrow> pyval \<Rightarrow> error + ClientResponse" where
  "respond code body = Inr \<lparr>status = code, json = Inr body\<rparr>"

definition not_found :: "error + ClientResponse" where
  "not_found = Inr \<lparr>status = 404, json = Inl ContentTypeError\<rparr>"

definition env_ok :: pyval where
  "env_ok = PDict [(''success'', PBool True), (''x'', PInt 1)]"

definition env_bad :: pyval where
  "env_bad = PDict [(''success'', PBool False), (''error'', PStr ''bad'')]"

definition env_bare :: pyval where
  "env_bare = PDict [(''x'', PInt 1)]"

definition env_peers :: pyval where
  "env_peers =
     PDict [(''success'', PBool True),
            (''connections'',
             PList [PDict [(''node_id'', PStr ''00ff''), (''peer_port'', PInt 8444)],
                    PDict [(''type'', PInt 1), (''node_id'', PStr ''a1b2c3'')]])]"

section \<open>Properties\<close>

subsection \<open>The retry loop\<close>

lemma last_retries: "last retries = 4"
  by (simp add: retries_def upt_rec)

lemma retries_nth: "j < 5 \<Longrightarrow> retries ! j = j"
  by (simp add: retries_def)

lemma length_retries: "length retries = 5"
  by (simp add: retries_def)

lemma fetch_attempt_posts:
  "posts (snd (fetch_attempt post u rj ident retry w)) = posts w @ [(u, rj)]"
  by (simp add: fetch_attempt_def Let_def append_line_def split: sum.split)

lemma fetch_attempt_not_Falls_through:
  "fst (fetch_attempt post u rj ident retry w) \<noteq> Falls_through"
  by (simp add: fetch_attempt_def Let_def split: sum.split)

lemma fetch_attempt_last_ends:
  "fst (fetch_attempt post u rj ident (last retries) w) \<noteq> Continue"
  by (simp add: fetch_attempt_def Let_def split: sum.split)

lemma fetch_loop_posts:
  "\<exists>n\<le>length rs. posts (snd (fetch_loop post u rj ident rs w)) = posts w @ replicate n (u, rj)
      \<and> (rs \<noteq> [] \<longrightarrow> 1 \<le> n)"
proof (induction rs arbitrary: w)
  case Nil
  then show ?case by simp
next
  case (Cons retry rest)
  obtain out w1 where a: "fetch_attempt post u rj ident retry w = (out, w1)"
    by (cases "fetch_attempt post u rj ident retry w")
  have p1: "posts w1 = posts w @ [(u, rj)]"
    using fetch_attempt_posts [of post u rj ident retry w] a by simp
  show ?case
  proof (cases out)
    case Continue
    from Cons.IH [of w1] obtain n where n: "n \<le> length rest"
      "posts (snd (fetch_loop post u rj ident rest w1)) = posts w1 @ replicate n (u, rj)"
      by blast
    have "posts (snd (fetch_loop post u rj ident (retry # rest) w)) = posts w @ replicate (Suc n) (u, rj)"
      using a Continue n p1 by (simp add: replicate_app_Cons_same)
    then show ?thesis using n(1) by (intro exI [of _ "Suc n"]) simp
  next
    case (Raise e)
    then show ?thesis using a p1 by (intro exI [of _ 1]) simp
  next
    case (Return v)
    then show ?thesis using a p1 by (intro exI [of _ 1]) simp
  next
    case Falls_through
    then show ?thesis using a p1 by (intro exI [of _ 1]) simp
  qed
qed

lemma fetch_loop_attempt:
  assumes "fetch_loop post u rj ident rs w = (res, w')"
    and "j < length rs"
    and "length (posts w) + j < length (posts w')"
  shows "\<exists>wj. length (posts wj) = length (posts w) + j \<and> (j = 0 \<longrightarrow> wj = w) \<and>
           (case fetch_attempt post u rj ident (rs ! j) wj of
              (out, w'') \<Rightarrow> out = Continue \<or> (ended out = Some res \<and> w' = w''))"
  using assms
proof (induction rs arbitrary: w j)
  case Nil
  then show ?case by simp
next
  case (Cons retry rest)
  obtain out w1 where a: "fetch_attempt post u rj ident retry w = (out, w1)"
    by (cases "fetch_attempt post u rj ident retry w")
  have p1: "posts w1 = posts w @ [(u, rj)]"
    using fetch_attempt_posts [of post u rj ident retry w] a by simp
  show ?case
  proof (cases j)
    case 0
    show ?thesis
      using Cons.prems(1) a 0
      by (intro exI [of _ w]) (auto simp: ended_def split: outcome.splits)
  next
    case (Suc j')
    show ?thesis
    proof (cases "out = Continue")
      case True
      have run: "fetch_loop post u rj ident rest w1 = (res, w')"
        using Cons.prems(1) a True by simp
      have "\<exists>wj. length (posts wj) = length (posts w1) + j' \<and> (j' = 0 \<longrightarrow> wj = w1) \<and>
           (case fetch_attempt post u rj ident (rest ! j') wj of
              (out, w'') \<Rightarrow> out = Continue \<or> (ended out = Some res \<and> w' = w''))"
        using Cons.prems Suc p1 by (intro Cons.IH [OF run]) auto
      then show ?thesis using Suc p1 by auto
    next
      case False
      then have "w' = w1"
        using Cons.prems(1) a by (cases out) auto
      then show ?thesis using Cons.prems(3) p1 Suc by simp
    qed
  qed
qed

lemma fetch_posts:
  "\<exists>n. 1 \<le> n \<and> n \<le> 5 \<and>
     posts (snd (fetch post self path rj ident w)) =
       posts w @ replicate n (url self @ path @ ''?'' @ ident, rj)"
proof -
  have "retries \<noteq> []" by (simp add: retries_def)
  then show ?thesis
    using fetch_loop_posts [of retries post "url self @ path @ ''?'' @ ident" rj ident w]
    by (auto simp: fetch_def length_retries)
qed

text \<open>An attempt that cannot continue decides the call, when the call gets to it.\<close>

lemma fetch_attempt_decides:
  assumes run: "fetch post self path rj ident w = (res, w')"
    and made: "length (posts w) + k < length (posts w')"
    and att: "\<And>wk. length (posts wk) = length (posts w) + k \<Longrightarrow> (k = 0 \<Longrightarrow> wk = w) \<Longrightarrow>
        fst (fetch_attempt post (url self @ path @ ''?'' @ ident) rj ident k wk) = out"
    and out: "out \<noteq> Continue"
  shows "ended out = Some res \<and> length (posts w') = length (posts w) + k + 1"
proof -
  let ?u = "url self @ path @ ''?'' @ ident"
  obtain n where n: "n \<le> 5" "posts w' = posts w @ replicate n (?u, rj)"
    using fetch_posts [of post self path rj ident w] run by auto
  have k: "k < 5" using made n by simp
  have loop: "fetch_loop post ?u rj ident retries w = (res, w')"
    using run by (simp add: fetch_def)
  obtain wk where wk: "length (posts wk) = length (posts w) + k" "k = 0 \<longrightarrow> wk = w"
    and c: "case fetch_attempt post ?u rj ident (retries ! k) wk of
              (out, w'') \<Rightarrow> out = Continue \<or> (ended out = Some res \<and> w' = w'')"
    using fetch_loop_attempt [OF loop _ made] k by (auto simp: length_retries)
  obtain o' w'' where a: "fetch_attempt post ?u rj ident k wk = (o', w'')"
    by (cases "fetch_attempt post ?u rj ident k wk")
  have "o' = out" using att [of wk] wk a by simp
  then have e: "ended out = Some res" and w': "w' = w''"
    using c a out k by (simp_all add: retries_nth)
  have "posts w'' = posts wk @ [(?u, rj)]"
    using fetch_attempt_posts [of post ?u rj ident k wk] a by simp
  then show ?thesis using e w' wk by simp
qed

text \<open>An attempt past the log line and the 404 branch.\<close>

lemma fetch_attempt_checked:
  assumes "post (length (posts w)) u rj = Inr response"
    and "status response \<noteq> 404 \<or> retry = 4"
    and "retry \<noteq> 0 \<or> ident = [] \<or> (\<exists>text. fs w ident = Inr text)"
  shows "fst (fetch_attempt post u rj ident retry w) =
     (case raise_for_status response of
        Inl e \<Rightarrow> Raise e
      | Inr _ \<Rightarrow>
          (case json response of
             Inl e \<Rightarrow> Raise e
           | Inr res_json \<Rightarrow>
               (case subscript res_json ''success'' of
                  Inl e \<Rightarrow> Raise e
                | Inr success \<Rightarrow>
                    if \<not> truthy success then Raise (ValueError res_json)
                    else if retry \<noteq> 0 then Raise (Exception_took retry res_json)
                    else Return res_json)))"
  using assms
  by (auto simp: fetch_attempt_def Let_def append_line_def open_a_def last_retries split: sum.split)

lemma fetch_first_attempt_made:
  "fetch post self path rj ident w = (res, w') \<Longrightarrow> length (posts w) + 0 < length (posts w')"
  using fetch_posts [of post self path rj ident w] by auto

text \<open>The definitions that running the module on a given server unfolds.\<close>

lemmas run_defs = fetch_def retries_def upt_rec fetch_attempt_def reply_with_def respond_def
  not_found_def world0_def world1_def no_files_def log_only_def append_line_def open_a_def
  raise_for_status_def Let_def

subsection \<open>A success after a retry\<close>

text \<open>
  C1. When \<^verbatim>\<open>fetch\<close> makes an attempt \<open>k\<close> other than attempt 0 and that attempt
  gets a 2xx response whose decoded envelope has a truthy \<^verbatim>\<open>success\<close>, the call does not
  return the envelope: it raises the exception of line 63, which carries the number of
  retries \<open>k\<close> and the decoded envelope. Attempt \<open>k\<close> is made when the call has
  sent more than \<open>k\<close> requests.
\<close>

theorem fetch_late_success_raises:
  assumes "fetch post self path request_json ident w = (res, w')"
    and "0 < k"
    and "length (posts w) + k < length (posts w')"
    and "post (length (posts w) + k) (url self @ path @ ''?'' @ ident) request_json = Inr response"
    and "200 \<le> status response" and "status response < 300"
    and "json response = Inr (PDict kvs)"
    and "map_of kvs ''success'' = Some success" and "truthy success"
  shows "res = Inl (Exception_took k (PDict kvs))"
proof -
  have "ended (Raise (Exception_took k (PDict kvs))) = Some res
      \<and> length (posts w') = length (posts w) + k + 1"
  proof (rule fetch_attempt_decides [OF assms(1) assms(3)])
    fix wk :: world assume "length (posts wk) = length (posts w) + k"
    then show "fst (fetch_attempt post (url self @ path @ ''?'' @ ident) request_json ident k wk)
        = Raise (Exception_took k (PDict kvs))"
      using assms(2,4-9)
      by (subst fetch_attempt_checked [where response = response])
         (auto simp: raise_for_status_def)
  qed simp
  then show ?thesis by (simp add: ended_def)
qed

theorem fetch_late_success_raises_witness:
  "length (posts (snd (fetch (reply_with [not_found, not_found, not_found, not_found, respond 200 env_ok])
       client0 ''healthz'' (PDict []) ''fetch.log'' world1))) = 5
   \<and> fst (fetch (reply_with [not_found, not_found, not_found, not_found, respond 200 env_ok])
       client0 ''healthz'' (PDict []) ''fetch.log'' world1) = Inl (Exception_took 4 env_ok)"
proof -
  let ?post = "reply_with [not_found, not_found, not_found, not_found, respond 200 env_ok]"
  let ?run = "fetch ?post client0 ''healthz'' (PDict []) ''fetch.log'' world1"
  have n: "length (posts (snd ?run)) = 5"
    by (simp add: run_defs env_ok_def)
  have "fst ?run = Inl (Exception_took 4 (PDict [(''success'', PBool True), (''x'', PInt 1)]))"
    using n
    by (intro fetch_late_success_raises [of ?post client0 "''healthz''" "PDict []" "''fetch.log''"
          world1 "fst ?run" "snd ?run" 4 "\<lparr>status = 200, json = Inr env_ok\<rparr>" _ "PBool True"])
       (simp_all add: reply_with_def respond_def world1_def env_ok_def)
  then show ?thesis using n by (simp add: env_ok_def)
qed

subsection \<open>An envelope without the field\<close>

text \<open>
  C2, as amended. Line 60 reads \<^verbatim>\<open>res_json["success"]\<close>, so an envelope that has no
  \<^verbatim>\<open>success\<close> field is no success: when the first attempt gets a 2xx response whose
  decoded envelope is an object without the field, and the id is empty or names a file
  that opens for appending, \<^verbatim>\<open>fetch\<close> raises \<^verbatim>\<open>KeyError\<close> for \<^verbatim>\<open>success\<close> after that
  one request. The counterexample is the claim as stated, at an empty id.
\<close>

theorem fetch_missing_success_raises:
  assumes "fetch post self path request_json ident w = (res, w')"
    and "post (length (posts w)) (url self @ path @ ''?'' @ ident) request_json = Inr response"
    and "200 \<le> status response" and "status response < 300"
    and "json response = Inr (PDict kvs)"
    and "map_of kvs ''success'' = None"
    and "ident = [] \<or> (\<exists>text. fs w ident = Inr text)"
  shows "res = Inl (KeyError ''success'') \<and> length (posts w') = length (posts w) + 1"
proof -
  have "ended (Raise (KeyError ''success'')) = Some res
      \<and> length (posts w') = length (posts w) + 0 + 1"
  proof (rule fetch_attempt_decides [OF assms(1) fetch_first_attempt_made [OF assms(1)]])
    fix wk :: world assume "0 = 0 \<Longrightarrow> wk = w"
    then have "wk = w" by simp
    then show "fst (fetch_attempt post (url self @ path @ ''?'' @ ident) request_json ident 0 wk)
        = Raise (KeyError ''success'')"
      using assms(2-7)
      by (subst fetch_attempt_checked [where response = response])
         (auto simp: raise_for_status_def)
  qed simp
  then show ?thesis by (simp add: ended_def)
qed

theorem fetch_missing_success_raises_witness:
  "fst (fetch (reply_with [respond 201 env_bare]) client0 ''stop_node'' (PDict []) ''fetch.log'' world1)
     = Inl (KeyError ''success'')
   \<and> length (posts (snd (fetch (reply_with [respond 201 env_bare]) client0 ''stop_node'' (PDict [])
        ''fetch.log'' world1))) = 1"
proof -
  let ?post = "reply_with [respond 201 env_bare]"
  let ?run = "fetch ?post client0 ''stop_node'' (PDict []) ''fetch.log'' world1"
  have "fst ?run = Inl (KeyError ''success'')
      \<and> length (posts (snd ?run)) = length (posts world1) + 1"
    by (rule fetch_missing_success_raises [of ?post client0 "''stop_node''" "PDict []"
          "''fetch.log''" world1 "fst ?run" "snd ?run" "\<lparr>status = 201, json = Inr env_bare\<rparr>"
          "[(''x'', PInt 1)]"])
       (simp_all add: reply_with_def respond_def world1_def env_bare_def log_only_def)
  then show ?thesis by (simp add: world1_def)
qed

theorem fetch_missing_success_counterexample:
  "fst (fetch (reply_with [respond 200 env_bare]) client0 ''healthz'' (PDict []) [] world0)
     = Inl (KeyError ''success'')"
  by (simp add: run_defs env_bare_def)

subsection \<open>An envelope that says false\<close>

text \<open>
  C4, as amended. When an attempt that \<^verbatim>\<open>fetch\<close> makes gets a 2xx response whose decoded
  envelope has \<^verbatim>\<open>success\<close> equal to false, the call raises \<^verbatim>\<open>ValueError\<close> carrying the
  whole envelope and sends no further request; on attempt 0 this needs the id to be empty
  or to name a file that opens for appending, since the line of lines 50 to 52 is written
  before the envelope is looked at. The counterexample is the claim as stated, at an id
  that names a file in a directory that does not exist.
\<close>

theorem fetch_false_success_raises:
  assumes "fetch post self path request_json ident w = (res, w')"
    and "length (posts w) + k < length (posts w')"
    and "post (length (posts w) + k) (url self @ path @ ''?'' @ ident) request_json = Inr response"
    and "200 \<le> status response" and "status response < 300"
    and "json response = Inr (PDict kvs)"
    and "map_of kvs ''success'' = Some (PBool False)"
    and "k = 0 \<longrightarrow> ident = [] \<or> (\<exists>text. fs w ident = Inr text)"
  shows "res = Inl (ValueError (PDict kvs)) \<and> length (posts w') = length (posts w) + k + 1"
proof -
  have "ended (Raise (ValueError (PDict kvs))) = Some res
      \<and> length (posts w') = length (posts w) + k + 1"
  proof (rule fetch_attempt_decides [OF assms(1,2)])
    fix wk :: world
    assume "length (posts wk) = length (posts w) + k" and "k = 0 \<Longrightarrow> wk = w"
    then show "fst (fetch_attempt post (url self @ path @ ''?'' @ ident) request_json ident k wk)
        = Raise (ValueError (PDict kvs))"
      using assms(3-8)
      by (subst fetch_attempt_checked [where response = response])
         (auto simp: raise_for_status_def)
  qed simp
  then show ?thesis by (simp add: ended_def)
qed

theorem fetch_false_success_raises_witness:
  "fst (fetch (reply_with [not_found, respond 200 env_bad]) client0 ''healthz'' (PDict [])
        ''fetch.log'' world1) = Inl (ValueError env_bad)
   \<and> length (posts (snd (fetch (reply_with [not_found, respond 200 env_bad]) client0 ''healthz''
        (PDict []) ''fetch.log'' world1))) = 2"
proof -
  let ?post = "reply_with [not_found, respond 200 env_bad]"
  let ?run = "fetch ?post client0 ''healthz'' (PDict []) ''fetch.log'' world1"
  have n: "length (posts (snd ?run)) = 2"
    by (simp add: run_defs env_bad_def)
  have "fst ?run = Inl (ValueError (PDict [(''success'', PBool False), (''error'', PStr ''bad'')]))
      \<and> length (posts (snd ?run)) = length (posts world1) + 1 + 1"
    using n
    by (intro fetch_false_success_raises [of ?post client0 "''healthz''" "PDict []"
          "''fetch.log''" world1 "fst ?run" "snd ?run" 1 "\<lparr>status = 200, json = Inr env_bad\<rparr>"])
       (simp_all add: reply_with_def respond_def world1_def env_bad_def)
  then show ?thesis by (simp add: env_bad_def world1_def)
qed

theorem fetch_false_success_counterexample:
  "fst (fetch (reply_with [respond 200 env_bad]) client0 ''healthz'' (PDict [])
        ''missing/fetch.log'' world0) = Inl (FileNotFoundError ''missing/fetch.log'')"
  by (simp add: run_defs env_bad_def)

subsection \<open>A success on the first attempt\<close>

text \<open>
  C5, as amended. When the first attempt gets a 200 response whose decoded envelope is
  \<^verbatim>\<open>{"success": true, "x": 1}\<close>, and the id is empty or names a file that opens for
  appending, \<^verbatim>\<open>fetch\<close> returns that envelope unchanged. The counterexample is the claim
  as stated, at an id that names a file in a directory that does not exist.
\<close>

theorem fetch_first_success_returns:
  assumes "fetch post self path request_json ident w = (res, w')"
    and "post (length (posts w)) (url self @ path @ ''?'' @ ident) request_json = Inr response"
    and "status response = 200"
    and "json response = Inr (PDict [(''success'', PBool True), (''x'', PInt 1)])"
    and "ident = [] \<or> (\<exists>text. fs w ident = Inr text)"
  shows "res = Inr (PDict [(''success'', PBool True), (''x'', PInt 1)])"
proof -
  have "ended (Return (PDict [(''success'', PBool True), (''x'', PInt 1)])) = Some res
      \<and> length (posts w') = length (posts w) + 0 + 1"
  proof (rule fetch_attempt_decides [OF assms(1) fetch_first_attempt_made [OF assms(1)]])
    fix wk :: world assume "0 = 0 \<Longrightarrow> wk = w"
    then have "wk = w" by simp
    then show "fst (fetch_attempt post (url self @ path @ ''?'' @ ident) request_json ident 0 wk)
        = Return (PDict [(''success'', PBool True), (''x'', PInt 1)])"
      using assms(2-5)
      by (subst fetch_attempt_checked [where response = response])
         (auto simp: raise_for_status_def)
  qed simp
  then show ?thesis by (simp add: ended_def)
qed

theorem fetch_first_success_returns_witness:
  "fst (fetch (reply_with [respond 200 env_ok]) client0 ''healthz'' (PDict []) [] world0)
     = Inr (PDict [(''success'', PBool True), (''x'', PInt 1)])"
proof -
  let ?post = "reply_with [respond 200 env_ok]"
  let ?run = "fetch ?post client0 ''healthz'' (PDict []) [] world0"
  show ?thesis
    by (rule fetch_first_success_returns [of ?post client0 "''healthz''" "PDict []" "[]" world0
          "fst ?run" "snd ?run" "\<lparr>status = 200, json = Inr env_ok\<rparr>"])
       (simp_all add: reply_with_def respond_def world0_def env_ok_def)
qed

theorem fetch_first_success_counterexample:
  "fst (fetch (reply_with [respond 200 env_ok]) client0 ''healthz'' (PDict [])
        ''missing/fetch.log'' world0) = Inl (FileNotFoundError ''missing/fetch.log'')"
  by (simp add: run_defs env_ok_def)

subsection \<open>Requests sent, and statuses that end the call\<close>

text \<open>
  C6, as amended. Every attempt sends exactly one POST, and a call makes between one and
  five attempts, all with the same URL and body. A status of 400 or above other than 404,
  on an attempt that the call makes, ends the call after that request with the
  \<^verbatim>\<open>ClientResponseError\<close> that carries the status; on attempt 0 this needs the id to be
  empty or to name a file that opens for appending. The counterexample is the claim as
  stated at two inputs: a status 300, which \<^verbatim>\<open>raise_for_status\<close> lets through, so that
  the envelope is returned; and a status 500 on attempt 0 with an id that names a file in
  a directory that does not exist, where the call fails on the file.
\<close>

theorem fetch_posts_and_status_errors:
  assumes "fetch post self path request_json ident w = (res, w')"
  shows "(\<exists>n. 1 \<le> n \<and> n \<le> 5 \<and>
            posts w' = posts w @ replicate n (url self @ path @ ''?'' @ ident, request_json))
     \<and> (\<forall>u retry wk. posts (snd (fetch_attempt post u request_json ident retry wk))
            = posts wk @ [(u, request_json)])
     \<and> (\<forall>k response.
            length (posts w) + k < length (posts w')
            \<and> post (length (posts w) + k) (url self @ path @ ''?'' @ ident) request_json = Inr response
            \<and> 400 \<le> status response \<and> status response \<noteq> 404
            \<and> (k = 0 \<longrightarrow> ident = [] \<or> (\<exists>text. fs w ident = Inr text))
          \<longrightarrow> res = Inl (ClientResponseError (status response))
              \<and> length (posts w') = length (posts w) + k + 1)"
proof (intro conjI allI impI)
  show "\<exists>n. 1 \<le> n \<and> n \<le> 5 \<and>
      posts w' = posts w @ replicate n (url self @ path @ ''?'' @ ident, request_json)"
    using fetch_posts [of post self path request_json ident w] assms by simp
next
  fix u retry and wk :: world
  show "posts (snd (fetch_attempt post u request_json ident retry wk)) = posts wk @ [(u, request_json)]"
    by (rule fetch_attempt_posts)
next
  fix k response
  assume h: "length (posts w) + k < length (posts w')
      \<and> post (length (posts w) + k) (url self @ path @ ''?'' @ ident) request_json = Inr response
      \<and> 400 \<le> status response \<and> status response \<noteq> 404
      \<and> (k = 0 \<longrightarrow> ident = [] \<or> (\<exists>text. fs w ident = Inr text))"
  have "ended (Raise (ClientResponseError (status response))) = Some res
      \<and> length (posts w') = length (posts w) + k + 1"
  proof (rule fetch_attempt_decides [OF assms])
    show "length (posts w) + k < length (posts w')" using h by simp
  next
    fix wk :: world
    assume "length (posts wk) = length (posts w) + k" and "k = 0 \<Longrightarrow> wk = w"
    then show "fst (fetch_attempt post (url self @ path @ ''?'' @ ident) request_json ident k wk)
        = Raise (ClientResponseError (status response))"
      using h
      by (subst fetch_attempt_checked [where response = response])
         (auto simp: raise_for_status_def)
  qed simp
  then show "res = Inl (ClientResponseError (status response))"
    and "length (posts w') = length (posts w) + k + 1"
    by (simp_all add: ended_def)
qed

theorem fetch_posts_and_status_errors_witness:
  "fst (fetch (reply_with [respond 500 PNone]) client0 ''healthz'' (PDict []) [] world0)
     = Inl (ClientResponseError 500)
   \<and> length (posts (snd (fetch (reply_with [respond 500 PNone]) client0 ''healthz'' (PDict []) []
        world0))) = 1"
proof -
  let ?post = "reply_with [respond 500 PNone]"
  let ?run = "fetch ?post client0 ''healthz'' (PDict []) [] world0"
  let ?r = "\<lparr>status = 500, json = Inr PNone\<rparr>"
  have n: "length (posts (snd ?run)) = 1"
    by (simp add: run_defs)
  note t = fetch_posts_and_status_errors [of ?post client0 "''healthz''" "PDict []" "[]" world0
      "fst ?run" "snd ?run", OF surjective_pairing, THEN conjunct2, THEN conjunct2, rule_format,
      of 0 ?r]
  have "fst ?run = Inl (ClientResponseError (status ?r))
      \<and> length (posts (snd ?run)) = length (posts world0) + 0 + 1"
    using n by (intro t) (simp add: reply_with_def respond_def world0_def)
  then show ?thesis by (simp add: world0_def)
qed

theorem fetch_posts_and_status_errors_counterexample:
  "fst (fetch (reply_with [respond 300 env_ok]) client0 ''healthz'' (PDict []) [] world0)
     = Inr env_ok
   \<and> fst (fetch (reply_with [respond 500 env_ok]) client0 ''healthz'' (PDict [])
        ''missing/fetch.log'' world0) = Inl (FileNotFoundError ''missing/fetch.log'')"
  by (simp add: run_defs env_ok_def)

subsection \<open>A 404 with no id\<close>

text \<open>
  C3. Lines 53 to 55 open the file named by the id whether or not the id is empty, where
  line 50 asks for a non-empty id first. With the default id \<^verbatim>\<open>""\<close> a 404 on the first
  attempt therefore raises \<^verbatim>\<open>FileNotFoundError\<close> out of \<^verbatim>\<open>open("", "a")\<close>: the call
  does not sleep and sends no second request, although the server would have answered
  that one with a success.
\<close>

theorem fetch_retry_without_id_raises:
  "fst (fetch (reply_with [not_found, respond 200 env_ok]) client0 ''healthz'' (PDict []) [] world1)
     = Inl (FileNotFoundError [])
   \<and> slept (snd (fetch (reply_with [not_found, respond 200 env_ok]) client0 ''healthz'' (PDict [])
        [] world1)) = 0
   \<and> length (posts (snd (fetch (reply_with [not_found, respond 200 env_ok]) client0 ''healthz''
        (PDict []) [] world1))) = 1"
  by (simp add: run_defs env_ok_def)

subsection \<open>The files that \<^verbatim>\<open>fetch\<close> writes\<close>

text \<open>The lines written depend on the process id only.\<close>

lemma fetching_line_posts [simp]: "fetching_line (w\<lparr>posts := ps\<rparr>) u = fetching_line w u"
  by (simp add: fetching_line_def)

lemma retry_line_posts [simp]: "retry_line (w\<lparr>posts := ps\<rparr>) u = retry_line w u"
  by (simp add: retry_line_def)

lemma retry_line_fs [simp]: "retry_line (w\<lparr>fs := f\<rparr>) u = retry_line w u"
  by (simp add: retry_line_def)

lemma fetch_loop_Raise:
  "fst (fetch_attempt post u rj ident retry w) = Raise e \<Longrightarrow>
     fst (fetch_loop post u rj ident (retry # rest) w) = Inl e"
  by (cases "fetch_attempt post u rj ident retry w") simp

lemma retries_Cons: "retries = 0 # [1..<5]"
  by (simp add: retries_def upt_rec [of 0])

text \<open>
  C10. \<^verbatim>\<open>fetch\<close> takes the id for the path of a file. On the first attempt with a
  non-empty id it opens that file for appending and writes the line of line 52 (and, on a
  404, the line of line 55 after it); when the open raises, so does the attempt. On a 404
  on any attempt but the last it opens the file named by the id, empty or not, and writes
  the line of line 55 before it continues; when the open raises, so does the attempt, and
  with an empty id the open always raises \<^verbatim>\<open>FileNotFoundError\<close>. So the whole call
  fails with the error of the open when the id is not empty and its file does not open,
  and with \<^verbatim>\<open>FileNotFoundError\<close> when the id is empty and the first response is a 404.
\<close>

theorem fetch_file_io:
  assumes "u = url self @ path @ ''?'' @ ident"
    and "post (length (posts w)) u request_json = Inr response"
  shows "(retry = 0 \<and> ident \<noteq> [] \<longrightarrow>
            (case fs w ident of
               Inl e \<Rightarrow> fst (fetch_attempt post u request_json ident retry w) = Raise e
             | Inr text \<Rightarrow>
                 fs (snd (fetch_attempt post u request_json ident retry w)) ident =
                   Inr (text @ fetching_line w u @ [CHR 0x0A] @
                        (if status response = 404 then retry_line w u @ [CHR 0x0A] else []))))
     \<and> (status response = 404 \<and> retry \<noteq> last retries \<and> \<not> (retry = 0 \<and> ident \<noteq> []) \<longrightarrow>
            (case open_a w ident of
               Inl e \<Rightarrow> fst (fetch_attempt post u request_json ident retry w) = Raise e
             | Inr text \<Rightarrow>
                 fst (fetch_attempt post u request_json ident retry w) = Continue
                 \<and> fs (snd (fetch_attempt post u request_json ident retry w)) ident =
                     Inr (text @ retry_line w u @ [CHR 0x0A])))
     \<and> (status response = 404 \<and> retry \<noteq> last retries \<and> ident = [] \<longrightarrow>
            fst (fetch_attempt post u request_json ident retry w) = Raise (FileNotFoundError []))
     \<and> (\<forall>e. ident \<noteq> [] \<and> fs w ident = Inl e \<longrightarrow>
            fst (fetch post self path request_json ident w) = Inl e)
     \<and> (status response = 404 \<and> ident = [] \<longrightarrow>
            fst (fetch post self path request_json ident w) = Inl (FileNotFoundError []))"
proof (intro conjI impI allI)
  assume "retry = 0 \<and> ident \<noteq> []"
  then show "case fs w ident of
       Inl e \<Rightarrow> fst (fetch_attempt post u request_json ident retry w) = Raise e
     | Inr text \<Rightarrow>
         fs (snd (fetch_attempt post u request_json ident retry w)) ident =
           Inr (text @ fetching_line w u @ [CHR 0x0A] @
                (if status response = 404 then retry_line w u @ [CHR 0x0A] else []))"
    using assms(2)
    by (simp add: fetch_attempt_def Let_def append_line_def open_a_def last_retries
        split: sum.split)
next
  assume "status response = 404 \<and> retry \<noteq> last retries \<and> \<not> (retry = 0 \<and> ident \<noteq> [])"
  then show "case open_a w ident of
       Inl e \<Rightarrow> fst (fetch_attempt post u request_json ident retry w) = Raise e
     | Inr text \<Rightarrow>
         fst (fetch_attempt post u request_json ident retry w) = Continue
         \<and> fs (snd (fetch_attempt post u request_json ident retry w)) ident =
             Inr (text @ retry_line w u @ [CHR 0x0A])"
    using assms(2)
    by (auto simp: fetch_attempt_def Let_def append_line_def open_a_def split: sum.split)
next
  assume "status response = 404 \<and> retry \<noteq> last retries \<and> ident = []"
  then show "fst (fetch_attempt post u request_json ident retry w) = Raise (FileNotFoundError [])"
    using assms(2)
    by (simp add: fetch_attempt_def Let_def append_line_def open_a_def)
next
  fix e assume h: "ident \<noteq> [] \<and> fs w ident = Inl e"
  have "fst (fetch_attempt post u request_json ident 0 w) = Raise e"
    using h assms(2) by (simp add: fetch_attempt_def Let_def append_line_def open_a_def)
  then show "fst (fetch post self path request_json ident w) = Inl e"
    unfolding fetch_def retries_Cons assms(1) [symmetric] by (rule fetch_loop_Raise)
next
  assume h: "status response = 404 \<and> ident = []"
  have "fst (fetch_attempt post u request_json ident 0 w) = Raise (FileNotFoundError [])"
    using h assms(2)
    by (simp add: fetch_attempt_def Let_def append_line_def open_a_def last_retries)
  then show "fst (fetch post self path request_json ident w) = Inl (FileNotFoundError [])"
    unfolding fetch_def retries_Cons assms(1) [symmetric] by (rule fetch_loop_Raise)
qed

theorem fetch_file_io_witness:
  "fst (fetch (reply_with [not_found]) client0 ''healthz'' (PDict []) [] world1)
     = Inl (FileNotFoundError [])
   \<and> fst (fetch (reply_with [not_found]) client0 ''healthz'' (PDict []) ''missing/fetch.log'' world1)
     = Inl (FileNotFoundError ''missing/fetch.log'')
   \<and> fs (snd (fetch_attempt (reply_with [not_found]) (url client0 @ ''healthz'' @ ''?'' @ ''fetch.log'')
              (PDict []) ''fetch.log'' 0 world1)) ''fetch.log''
     = Inr (fetching_line world1 (url client0 @ ''healthz'' @ ''?'' @ ''fetch.log'') @ [CHR 0x0A]
            @ retry_line world1 (url client0 @ ''healthz'' @ ''?'' @ ''fetch.log'') @ [CHR 0x0A])"
proof -
  let ?r = "\<lparr>status = 404, json = Inl ContentTypeError\<rparr>"
  have p: "reply_with [not_found] (length (posts world1)) u (PDict []) = Inr ?r" for u
    by (simp add: reply_with_def not_found_def world1_def)
  note t = fetch_file_io [where post = "reply_with [not_found]" and w = world1
      and self = client0 and path = "''healthz''" and request_json = "PDict []"
      and response = ?r and retry = 0, OF refl p]
  have a: "fst (fetch (reply_with [not_found]) client0 ''healthz'' (PDict []) [] world1)
      = Inl (FileNotFoundError [])"
    using t [where ident = "[]"] by simp
  have b: "fst (fetch (reply_with [not_found]) client0 ''healthz'' (PDict []) ''missing/fetch.log''
       world1) = Inl (FileNotFoundError ''missing/fetch.log'')"
    using t [where ident = "''missing/fetch.log''"] by (simp add: world1_def log_only_def)
  have c: "fs (snd (fetch_attempt (reply_with [not_found]) (url client0 @ ''healthz'' @ ''?'' @ ''fetch.log'')
              (PDict []) ''fetch.log'' 0 world1)) ''fetch.log''
     = Inr (fetching_line world1 (url client0 @ ''healthz'' @ ''?'' @ ''fetch.log'') @ [CHR 0x0A]
            @ retry_line world1 (url client0 @ ''healthz'' @ ''?'' @ ''fetch.log'') @ [CHR 0x0A])"
    using t [where ident = "''fetch.log''"] by (simp add: world1_def log_only_def)
  show ?thesis using a b c by simp
qed

subsection \<open>Hexadecimal there and back\<close>

lemma index_of_Some: "index_of c xs = Some i \<Longrightarrow> i < length xs \<and> xs ! i = c"
  by (induction xs arbitrary: i) (auto split: if_splits)

lemma hex_byte_of_digits:
  assumes "index_of a hexdigits = Some h" and "index_of b hexdigits = Some l"
  shows "hex_byte (word_of_nat (16 * h + l)) = [a, b]"
proof -
  have h: "h < 16" "hexdigits ! h = a" and l: "l < 16" "hexdigits ! l = b"
    using index_of_Some [OF assms(1)] index_of_Some [OF assms(2)]
    by (simp_all add: hexdigits_def)
  have "16 * h + l < 256" using h(1) l(1) by simp
  have "unat (word_of_nat (16 * h + l) :: 8 word) = (16 * h + l) mod 2 ^ LENGTH(8)"
    by (rule unat_of_nat)
  with \<open>16 * h + l < 256\<close> have "unat (word_of_nat (16 * h + l) :: 8 word) = 16 * h + l"
    by simp
  then show ?thesis using h l unfolding hex_byte_def by simp
qed

lemma fromhex_roundtrip: "fromhex s = Inr bs \<Longrightarrow> bytes_hex bs = s"
proof (induction s arbitrary: bs rule: fromhex.induct)
  case 1
  then show ?case by (simp add: bytes_hex_def)
next
  case (2 c)
  then show ?case by simp
next
  case (3 a b cs)
  from "3.prems" obtain h l bs' where
    d: "index_of a hexdigits = Some h" "index_of b hexdigits = Some l"
    and r: "fromhex cs = Inr bs'" and bs: "bs = word_of_nat (16 * h + l) # bs'"
    by (auto split: option.splits sum.splits)
  have "bytes_hex bs' = cs" using "3.IH" d r by simp
  then show ?case using bs hex_byte_of_digits [OF d] by (simp add: bytes_hex_def)
qed

subsection \<open>\<^verbatim>\<open>get_connections\<close>\<close>

lemma decode_node_id_Inr:
  assumes "decode_node_id connection = Inr connection'"
  shows "\<exists>fields s bs. connection = PDict fields \<and> map_of fields ''node_id'' = Some (PStr s)
      \<and> connection' = PDict (AList.update ''node_id'' (PBytes bs) fields) \<and> bytes_hex bs = s"
proof (cases connection)
  case (PDict fields)
  then obtain h where h: "map_of fields ''node_id'' = Some h"
    using assms by (auto simp: decode_node_id_def split: option.splits)
  then obtain bs where bs: "hexstr_to_bytes h = Inr bs"
    and c: "connection' = PDict (AList.update ''node_id'' (PBytes bs) fields)"
    using assms PDict by (auto simp: decode_node_id_def split: sum.splits)
  from bs obtain s where s: "h = PStr s" "fromhex s = Inr bs"
    by (cases h) auto
  show ?thesis using PDict h c s fromhex_roundtrip [OF s(2)]
    by (intro exI [of _ fields] exI [of _ s] exI [of _ bs]) simp
qed (use assms in \<open>simp_all add: decode_node_id_def\<close>)

lemma for_connections_Inr:
  "for_connections items = Inr items' \<Longrightarrow>
     length items' = length items \<and> (\<forall>i<length items. decode_node_id (items ! i) = Inr (items' ! i))"
proof (induction items arbitrary: items')
  case Nil
  then show ?case by simp
next
  case (Cons c cs)
  from Cons.prems obtain c' cs' where
    c: "decode_node_id c = Inr c'" and cs: "for_connections cs = Inr cs'" and i: "items' = c' # cs'"
    by (auto split: sum.splits)
  show ?case using Cons.IH [OF cs] c i by (auto simp: nth_Cons split: nat.splits)
qed

text \<open>
  C7. When \<^verbatim>\<open>get_connections\<close> succeeds on an envelope whose \<^verbatim>\<open>connections\<close> is a list,
  it returns a list of the same length in which every record is the record of the wire
  with its \<^verbatim>\<open>node_id\<close>, a hex string there, replaced by the bytes that the string
  decodes to; encoding those bytes back to hex gives the string of the wire.
\<close>

theorem get_connections_node_id_roundtrip:
  assumes "get_connections post self node_type w = (Inr result, w')"
    and "fst (fetch post self ''get_connections'' (get_connections_request node_type) [] w)
           = Inr (PDict envelope)"
    and "map_of envelope ''connections'' = Some (PList wire)"
  shows "\<exists>decoded. result = PList decoded \<and> length decoded = length wire \<and>
           (\<forall>i<length wire. \<exists>fields s bs.
               wire ! i = PDict fields \<and> map_of fields ''node_id'' = Some (PStr s)
               \<and> decoded ! i = PDict (AList.update ''node_id'' (PBytes bs) fields)
               \<and> bytes_hex bs = s)"
proof -
  obtain w1 where f: "fetch post self ''get_connections'' (get_connections_request node_type) [] w
      = (Inr (PDict envelope), w1)"
    using assms(2) by (cases "fetch post self ''get_connections'' (get_connections_request node_type) [] w") simp
  obtain decoded where d: "for_connections wire = Inr decoded" and r: "result = PList decoded"
    using assms(1,3) f by (auto simp: get_connections_def split: sum.splits)
  have "length decoded = length wire"
    and "\<forall>i<length wire. decode_node_id (wire ! i) = Inr (decoded ! i)"
    using for_connections_Inr [OF d] by simp_all
  then show ?thesis using r decode_node_id_Inr by blast
qed

theorem get_connections_node_id_roundtrip_witness:
  "fst (get_connections (reply_with [respond 200 env_peers]) client0 None world0)
     = Inr (PList [PDict [(''node_id'', PBytes [0, 255]), (''peer_port'', PInt 8444)],
                   PDict [(''type'', PInt 1), (''node_id'', PBytes [161, 178, 195])]])
   \<and> bytes_hex [0, 255] = ''00ff'' \<and> bytes_hex [161, 178, 195] = ''a1b2c3''"
proof -
  let ?post = "reply_with [respond 200 env_peers]"
  let ?run = "get_connections ?post client0 None world0"
  let ?wire = "[PDict [(''node_id'', PStr ''00ff''), (''peer_port'', PInt 8444)],
                PDict [(''type'', PInt 1), (''node_id'', PStr ''a1b2c3'')]]"
  have v: "fst ?run = Inr (PList [PDict [(''node_id'', PBytes [0, 255]), (''peer_port'', PInt 8444)],
                   PDict [(''type'', PInt 1), (''node_id'', PBytes [161, 178, 195])]])"
    by (simp add: get_connections_def get_connections_request_def run_defs env_peers_def
        decode_node_id_def hexdigits_def)
  have f: "fst (fetch ?post client0 ''get_connections'' (get_connections_request None) [] world0)
      = Inr (PDict [(''success'', PBool True), (''connections'', PList ?wire)])"
    by (simp add: get_connections_request_def run_defs env_peers_def)
  have "\<exists>decoded. PList [PDict [(''node_id'', PBytes [0, 255]), (''peer_port'', PInt 8444)],
                   PDict [(''type'', PInt 1), (''node_id'', PBytes [161, 178, 195])]] = PList decoded
      \<and> length decoded = length ?wire \<and>
           (\<forall>i<length ?wire. \<exists>fields s bs.
               ?wire ! i = PDict fields \<and> map_of fields ''node_id'' = Some (PStr s)
               \<and> decoded ! i = PDict (AList.update ''node_id'' (PBytes bs) fields)
               \<and> bytes_hex bs = s)"
    using v
    by (intro get_connections_node_id_roundtrip [OF _ f, where w' = "snd ?run"])
       (simp_all add: prod_eq_iff)
  then have all: "\<forall>i<2. \<exists>fields s bs.
               ?wire ! i = PDict fields \<and> map_of fields ''node_id'' = Some (PStr s)
               \<and> [PDict [(''node_id'', PBytes [0, 255]), (''peer_port'', PInt 8444)],
                   PDict [(''type'', PInt 1), (''node_id'', PBytes [161, 178, 195])]] ! i
                  = PDict (AList.update ''node_id'' (PBytes bs) fields)
               \<and> bytes_hex bs = s"
    by auto
  have "bytes_hex [0, 255] = ''00ff'' \<and> bytes_hex [161, 178, 195] = ''a1b2c3''"
    using all [rule_format, of 0] all [rule_format, of 1] by auto
  then show ?thesis using v by simp
qed

subsection \<open>What the endpoint methods return\<close>

text \<open>
  C8, as amended. \<^verbatim>\<open>open_connection\<close>, \<^verbatim>\<open>close_connection\<close>, \<^verbatim>\<open>stop_node\<close> and
  \<^verbatim>\<open>healthz\<close> return what \<^verbatim>\<open>fetch\<close> returns for their path and body, the whole envelope
  or the exception, with the effects of \<^verbatim>\<open>fetch\<close>. \<^verbatim>\<open>get_connections\<close> lets every
  exception of \<^verbatim>\<open>fetch\<close> through unchanged, and on an envelope with a list of connections
  returns that list, with each \<^verbatim>\<open>node_id\<close> decoded, and not the envelope. The
  counterexample is the claim as stated: the envelope that \<^verbatim>\<open>fetch\<close> returns, and next to
  it the list that \<^verbatim>\<open>get_connections\<close> returns.
\<close>

theorem endpoints_return_what_fetch_returns:
  "open_connection post self host portnum w =
     fetch post self ''open_connection'' (PDict [(''host'', PStr host), (''port'', PInt portnum)]) [] w
   \<and> close_connection post self node_id w =
     fetch post self ''close_connection'' (PDict [(''node_id'', PStr (bytes_hex node_id))]) [] w
   \<and> stop_node post self w = fetch post self ''stop_node'' (PDict []) [] w
   \<and> healthz post self w = fetch post self ''healthz'' (PDict []) [] w
   \<and> (\<forall>e w'. fetch post self ''get_connections'' (get_connections_request node_type) [] w = (Inl e, w')
         \<longrightarrow> get_connections post self node_type w = (Inl e, w'))
   \<and> (\<forall>envelope wire decoded w'.
         fetch post self ''get_connections'' (get_connections_request node_type) [] w
           = (Inr (PDict envelope), w')
         \<and> map_of envelope ''connections'' = Some (PList wire)
         \<and> for_connections wire = Inr decoded
         \<longrightarrow> get_connections post self node_type w = (Inr (PList decoded), w'))"
  by (simp add: open_connection_def close_connection_def stop_node_def healthz_def
      get_connections_def)

theorem endpoints_return_what_fetch_returns_witness:
  "get_connections (reply_with [respond 500 PNone]) client0 None world0
     = fetch (reply_with [respond 500 PNone]) client0 ''get_connections'' (PDict []) [] world0
   \<and> fst (get_connections (reply_with [respond 200 env_peers]) client0 (Some (NodeType 1)) world0)
     = Inr (PList [PDict [(''node_id'', PBytes [0, 255]), (''peer_port'', PInt 8444)],
                   PDict [(''type'', PInt 1), (''node_id'', PBytes [161, 178, 195])]])"
proof -
  let ?bad = "reply_with [respond 500 PNone]"
  let ?good = "reply_with [respond 200 env_peers]"
  let ?wire = "[PDict [(''node_id'', PStr ''00ff''), (''peer_port'', PInt 8444)],
                PDict [(''type'', PInt 1), (''node_id'', PStr ''a1b2c3'')]]"
  let ?decoded = "[PDict [(''node_id'', PBytes [0, 255]), (''peer_port'', PInt 8444)],
                   PDict [(''type'', PInt 1), (''node_id'', PBytes [161, 178, 195])]]"
  let ?f = "fetch ?bad client0 ''get_connections'' (get_connections_request None) [] world0"
  let ?g = "fetch ?good client0 ''get_connections'' (get_connections_request (Some (NodeType 1))) []
      world0"
  have e: "fst ?f = Inl (ClientResponseError 500)"
    by (simp add: run_defs get_connections_request_def)
  have a: "get_connections ?bad client0 None world0 = (Inl (ClientResponseError 500), snd ?f)"
    using e
    by (intro endpoints_return_what_fetch_returns [THEN conjunct2, THEN conjunct2, THEN conjunct2,
          THEN conjunct2, THEN conjunct1, rule_format])
       (simp add: prod_eq_iff)
  have r: "fst ?g = Inr (PDict [(''success'', PBool True), (''connections'', PList ?wire)])"
    by (simp add: run_defs get_connections_request_def env_peers_def)
  have d: "for_connections ?wire = Inr ?decoded"
    by (simp add: decode_node_id_def hexdigits_def)
  have b: "get_connections ?good client0 (Some (NodeType 1)) world0 = (Inr (PList ?decoded), snd ?g)"
    using r d
    by (intro endpoints_return_what_fetch_returns [THEN conjunct2, THEN conjunct2, THEN conjunct2,
          THEN conjunct2, THEN conjunct2, rule_format,
          where envelope = "[(''success'', PBool True), (''connections'', PList ?wire)]"
            and wire = ?wire])
       (simp add: prod_eq_iff)
  show ?thesis using a b e by (simp add: prod_eq_iff get_connections_request_def)
qed

theorem endpoints_return_what_fetch_returns_counterexample:
  "fst (fetch (reply_with [respond 200 env_peers]) client0 ''get_connections''
          (get_connections_request None) [] world0) = Inr env_peers
   \<and> fst (get_connections (reply_with [respond 200 env_peers]) client0 None world0)
     = Inr (PList [PDict [(''node_id'', PBytes [0, 255]), (''peer_port'', PInt 8444)],
                   PDict [(''type'', PInt 1), (''node_id'', PBytes [161, 178, 195])]])"
  by (simp add: get_connections_def get_connections_request_def run_defs env_peers_def
      decode_node_id_def hexdigits_def)

subsection \<open>Closing\<close>

lemma run_loop_add: "run_loop a (run_loop b self) = run_loop (b + a) self"
  by (induction b arbitrary: self) simp_all

lemma loop_turn_task:
  assumes "closing_task self = Some t"
  shows "closing_task (loop_turn self) = Some (t\<lparr>pending := tl (pending t)\<rparr>)
     \<and> session_closed (session (loop_turn self))
         = (session_closed (session self) \<or> Closes \<in> set (take 1 (pending t)))"
  using assms by (auto simp: loop_turn_def split: list.splits step.splits)

lemma run_loop_task:
  assumes "closing_task self = Some t"
  shows "closing_task (run_loop k self) = Some (t\<lparr>pending := drop k (pending t)\<rparr>)
     \<and> session_closed (session (run_loop k self))
         = (session_closed (session self) \<or> Closes \<in> set (take k (pending t)))"
  using assms
proof (induction k arbitrary: self t)
  case 0
  then show ?case by simp
next
  case (Suc k)
  note s = loop_turn_task [OF Suc.prems]
  show ?case
  proof (cases "pending t")
    case Nil
    then show ?thesis using Suc.IH [OF s [THEN conjunct1]] s by simp
  next
    case (Cons a rest)
    then show ?thesis using Suc.IH [OF s [THEN conjunct1]] s by auto
  qed
qed

text \<open>Awaiting the task is running the loop for as many turns as the task has steps left.\<close>

lemma await_task_runs_the_loop:
  assumes "closing_task self = Some t"
  shows "await_task self = (length (pending t), run_loop (length (pending t)) self)"
  using assms
proof (induction "length (pending t)" arbitrary: self t)
  case 0
  then show ?case by (simp add: await_task.simps [of self])
next
  case (Suc n)
  note s = loop_turn_task [OF Suc.prems, THEN conjunct1]
  have len: "length (pending (t\<lparr>pending := tl (pending t)\<rparr>)) = n"
    using Suc.hyps(2) by simp
  have "await_task (loop_turn self) = (n, run_loop n (loop_turn self))"
    using Suc.hyps(1) [OF len [symmetric] s] unfolding len .
  moreover have "pending t \<noteq> []" using Suc.hyps(2) by auto
  ultimately show ?case
    using Suc.prems Suc.hyps(2) [symmetric] by (simp add: await_task.simps [of self])
qed

text \<open>
  C9. On a client that \<^verbatim>\<open>create\<close> has built, and on any client whose
  \<^verbatim>\<open>closing_task\<close> is \<^verbatim>\<open>None\<close>, \<^verbatim>\<open>await_closed\<close> returns at once and changes nothing.
  After \<^verbatim>\<open>close\<close>, and however many turns \<open>k\<close> the event loop has run since,
  \<^verbatim>\<open>await_closed\<close> is suspended for exactly the turns that \<^verbatim>\<open>session.close()\<close> has
  still to run, and returns in the state that the loop reaches by them, in which the
  closing task is done. The task is not done in any state before that, whatever the
  steps of \<^verbatim>\<open>session.close()\<close> are. When one of its steps marks the session closed, the
  session is closed when \<^verbatim>\<open>await_closed\<close> returns.
\<close>

theorem await_closed_waits_for_close:
  "await_closed (create self_hostname p ctx) = (0, create self_hostname p ctx)
   \<and> (closing_task self = None \<longrightarrow> await_closed self = (0, self))
   \<and> fst (await_closed (run_loop k (close s ss self))) = Suc (length ss) - k
   \<and> snd (await_closed (run_loop k (close s ss self)))
       = run_loop (Suc (length ss) - k) (run_loop k (close s ss self))
   \<and> closing_task (snd (await_closed (run_loop k (close s ss self)))) = Some \<lparr>pending = []\<rparr>
   \<and> (\<forall>i<Suc (length ss). closing_task (run_loop i (close s ss self)) \<noteq> Some \<lparr>pending = []\<rparr>)
   \<and> (Closes \<in> set (s # ss)
        \<longrightarrow> session_closed (session (snd (await_closed (run_loop k (close s ss self))))))"
proof -
  let ?c = "run_loop k (close s ss self)"
  have c: "closing_task (close s ss self) = Some \<lparr>pending = s # ss\<rparr>"
    by (simp add: close_def)
  have t: "closing_task ?c = Some \<lparr>pending = drop k (s # ss)\<rparr>"
    using run_loop_task [OF c, of k] by simp
  have a: "await_closed ?c = (Suc (length ss) - k, run_loop (Suc (length ss) - k) ?c)"
    using await_task_runs_the_loop [OF t] t by (simp add: await_closed_def)
  have l: "Suc (length ss) \<le> k + (Suc (length ss) - k)" by arith
  have e: "closing_task (run_loop (Suc (length ss) - k) ?c) = Some \<lparr>pending = []\<rparr>"
    using run_loop_task [OF c, of "k + (Suc (length ss) - k)"] l by (simp add: run_loop_add)
  have f: "\<forall>i<Suc (length ss). closing_task (run_loop i (close s ss self)) \<noteq> Some \<lparr>pending = []\<rparr>"
  proof (intro allI impI)
    fix i assume "i < Suc (length ss)"
    then have "drop i (s # ss) \<noteq> []" by simp
    then show "closing_task (run_loop i (close s ss self)) \<noteq> Some \<lparr>pending = []\<rparr>"
      using run_loop_task [OF c, of i] by simp
  qed
  have g: "Closes \<in> set (s # ss) \<longrightarrow> session_closed (session (run_loop (Suc (length ss) - k) ?c))"
    using run_loop_task [OF c, of "k + (Suc (length ss) - k)"] l by (simp add: run_loop_add)
  have n: "await_closed (create self_hostname p ctx) = (0, create self_hostname p ctx)"
    by (simp add: await_closed_def create_def)
  have b: "closing_task self = None \<longrightarrow> await_closed self = (0, self)"
    by (simp add: await_closed_def)
  show ?thesis using n b a e f g by simp
qed

theorem await_closed_waits_for_close_witness:
  "await_closed client0 = (0, client0)
   \<and> session_closed (session (run_loop 1 (close Closes [Waits] client0)))
   \<and> closing_task (run_loop 1 (close Closes [Waits] client0)) = Some \<lparr>pending = [Waits]\<rparr>
   \<and> fst (await_closed (run_loop 1 (close Closes [Waits] client0))) = 1
   \<and> closing_task (snd (await_closed (run_loop 1 (close Closes [Waits] client0))))
       = Some \<lparr>pending = []\<rparr>
   \<and> session_closed (session (snd (await_closed (run_loop 1 (close Closes [Waits] client0)))))
   \<and> fst (await_closed (close Waits [Closes, Waits] client0)) = 3"
proof -
  have n: "closing_task client0 = None"
    by (simp add: client0_def create_def)
  note t = await_closed_waits_for_close [of "''localhost''" 8555 None client0 1 Closes "[Waits]"]
  note u = await_closed_waits_for_close [of "''localhost''" 8555 None client0 0 Waits "[Closes, Waits]"]
  note t2 = t [THEN conjunct2, THEN conjunct1]
  note t3 = t [THEN conjunct2, THEN conjunct2, THEN conjunct1]
  note t5 = t [THEN conjunct2, THEN conjunct2, THEN conjunct2, THEN conjunct2, THEN conjunct1]
  note t7 = t [THEN conjunct2, THEN conjunct2, THEN conjunct2, THEN conjunct2, THEN conjunct2,
      THEN conjunct2]
  note u3 = u [THEN conjunct2, THEN conjunct2, THEN conjunct1]
  have m: "session_closed (session (run_loop 1 (close Closes [Waits] client0)))
      \<and> closing_task (run_loop 1 (close Closes [Waits] client0)) = Some \<lparr>pending = [Waits]\<rparr>"
    by (simp add: close_def loop_turn_def)
  show ?thesis using t2 t3 t5 t7 u3 n m by simp
qed

end
